theory Spec2Isabelle
  imports Main "HOL-Library.Sublist"
begin

section \<open>Strings\<close>

text \<open>
  A Python \<open>str\<close> is a sequence of Unicode code points; a code point is a natural
  number.  File contents are modelled as decoded text: the UTF-8 layer between the text
  and the bytes on disk is the identity on well-formed files and is left out.
\<close>

type_synonym str = "nat list"

definition ascii :: "string \<Rightarrow> str" where
  "ascii = map of_char"

abbreviation LF :: nat where "LF \<equiv> 10"
abbreviation CR :: nat where "CR \<equiv> 13"
abbreviation BSL :: nat where "BSL \<equiv> 92"
abbreviation DQ :: nat where "DQ \<equiv> 34"

text \<open>\<open>str.isspace\<close> on one character, which is also what \<open>strip\<close> removes and what
  \<open>\s\<close> matches in a \<open>str\<close> pattern.\<close>

definition is_space :: "nat \<Rightarrow> bool" where
  "is_space c \<longleftrightarrow>
     (9 \<le> c \<and> c \<le> 13) \<or> (28 \<le> c \<and> c \<le> 32) \<or> c = 133 \<or> c = 160 \<or> c = 5760 \<or>
     (8192 \<le> c \<and> c \<le> 8202) \<or> c = 8232 \<or> c = 8233 \<or> c = 8239 \<or> c = 8287 \<or> c = 12288"

text \<open>The line boundaries of \<open>str.splitlines\<close>.\<close>

definition is_linebreak :: "nat \<Rightarrow> bool" where
  "is_linebreak c \<longleftrightarrow>
     (10 \<le> c \<and> c \<le> 13) \<or> (28 \<le> c \<and> c \<le> 30) \<or> c = 133 \<or> c = 8232 \<or> c = 8233"

definition lstrip :: "str \<Rightarrow> str" where
  "lstrip s = dropWhile is_space s"

definition rstrip :: "str \<Rightarrow> str" where
  "rstrip s = rev (dropWhile is_space (rev s))"

definition strip :: "str \<Rightarrow> str" where
  "strip s = lstrip (rstrip s)"

definition startswith :: "str \<Rightarrow> str \<Rightarrow> bool" where
  "startswith s p \<longleftrightarrow> take (length p) s = p"

text \<open>\<open>s.replace(old, new)\<close>: the occurrences of \<open>old\<close> are found from the left and do
  not overlap; an empty \<open>old\<close> matches before every character and at the end.\<close>

fun str_replace :: "str \<Rightarrow> str \<Rightarrow> str \<Rightarrow> str" where
  "str_replace old new [] = (if old = [] then new else [])"
| "str_replace old new (c # cs) =
     (if old = [] then new @ c # str_replace old new cs
      else if take (length old) (c # cs) = old
        then new @ str_replace old new (drop (length old - 1) cs)
      else c # str_replace old new cs)"

text \<open>\<open>sep.join(xs)\<close>.\<close>

fun join :: "str \<Rightarrow> str list \<Rightarrow> str" where
  "join sep [] = []"
| "join sep [x] = x"
| "join sep (x # y # ys) = x @ sep @ join sep (y # ys)"

text \<open>\<open>s.splitlines()\<close>: the lines without their terminators; \<open>\r\n\<close> is one
  terminator; a terminator at the very end opens no further line.\<close>

fun splitlines :: "str \<Rightarrow> str list" where
  "splitlines [] = []"
| "splitlines [c] = (if is_linebreak c then [[]] else [[c]])"
| "splitlines (c # d # ds) =
     (if c = CR \<and> d = LF then [] # splitlines ds
      else if is_linebreak c then [] # splitlines (d # ds)
      else (case splitlines (d # ds) of
              [] \<Rightarrow> [[c]]
            | l # ls \<Rightarrow> (c # l) # ls))"

section \<open>Escaping for the template format\<close>

text \<open>\<open>quote\<close> (rpt.py, lines 14 to 20).\<close>

definition quote :: "str \<Rightarrow> str" where
  "quote s = str_replace [LF] [BSL, 110] (str_replace [BSL] [BSL, BSL] s)"

text \<open>One record as \<open>main\<close> writes it (lines 163 to 166 and 249 to 252): the source line,
  the translation line, which holds the quoted source when \<open>fill_template\<close> is set and
  nothing otherwise, and an empty line.  \<open>eol\<close> is the line terminator of the phase.\<close>

definition write_record :: "str \<Rightarrow> bool \<Rightarrow> str \<Rightarrow> str" where
  "write_record eol fill_template orig =
     (let q_orig = quote orig;
          q_trans = (if fill_template then quote orig else [])
      in (ascii ''< '' @ q_orig @ eol) @ (ascii ''> '' @ q_trans @ eol @ eol))"

text \<open>The effect of \<open>quote\<close> on one character, as the specification words it.\<close>

definition escape_char :: "nat \<Rightarrow> str" where
  "escape_char c = (if c = BSL then [BSL, BSL] else if c = LF then [BSL, 110] else [c])"

section \<open>The template deduplicator\<close>

text \<open>
  \<open>open(filepath, encoding="utf-8")\<close> reads in universal-newlines mode: \<open>\r\n\<close> and a
  lone \<open>\r\<close> arrive as \<open>\n\<close>.  \<open>readlines\<close> cuts the text after every \<open>\n\<close> and keeps
  the terminator on the line; the last line may lack one.
\<close>

fun universal_newlines :: "str \<Rightarrow> str" where
  "universal_newlines [] = []"
| "universal_newlines [c] = (if c = CR then [LF] else [c])"
| "universal_newlines (c # d # ds) =
     (if c = CR then (if d = LF then LF # universal_newlines ds else LF # universal_newlines (d # ds))
      else c # universal_newlines (d # ds))"

fun readlines :: "str \<Rightarrow> str list" where
  "readlines [] = []"
| "readlines (c # cs) =
     (if c = LF then [LF] # readlines cs
      else (case readlines cs of [] \<Rightarrow> [[c]] | l # ls \<Rightarrow> (c # l) # ls))"

text \<open>\<open>lines[i].strip() == ""\<close>.\<close>

definition is_blank :: "str \<Rightarrow> bool" where
  "is_blank l \<longleftrightarrow> strip l = []"

text \<open>\<open>lines[i].replace('\n', '\r\n')\<close>, applied to every line that is kept.\<close>

definition crlf :: "str \<Rightarrow> str" where
  "crlf l = str_replace [LF] [CR, LF] l"

text \<open>Lines 102 to 106: the line after a kept source line is kept with it when it
  starts with \<open>>\<close>.  The result is that line (or nothing) and the lines left to read.\<close>

definition take_translation :: "str list \<Rightarrow> str list \<times> str list" where
  "take_translation ls =
     (case ls of
        [] \<Rightarrow> ([], [])
      | t # ts \<Rightarrow> if startswith t (ascii ''>'') then ([t], ts) else ([], t # ts))"

text \<open>
  The loop of \<open>deduplicate_rpt\<close> (lines 94 to 118).  The index \<open>i\<close> is the list of the
  lines still to read, \<open>output_lines\<close> is the result, \<open>seen\<close> the set of payloads met.
\<close>

function deduplicate_lines :: "str set \<Rightarrow> str list \<Rightarrow> str list" where
  "deduplicate_lines seen [] = []"
| "deduplicate_lines seen (l # ls) =
     (if startswith l (ascii ''< '') then
        (let src = rstrip (drop 2 l) in
         if src \<notin> seen then
           (let (tr, rest) = take_translation ls in
            crlf l # map crlf tr @ map crlf (takeWhile is_blank rest)
              @ deduplicate_lines (insert src seen) (dropWhile is_blank rest))
         else
           deduplicate_lines seen
             (dropWhile (\<lambda>x. startswith x (ascii ''>'') \<or> is_blank x) ls))
      else crlf l # deduplicate_lines seen ls)"
  by pat_completeness auto
termination
proof (relation "measure (\<lambda>(seen, ls). length ls)")
  show "wf (measure (\<lambda>(seen, ls). length ls))" by simp
next
  fix seen :: "str set" and l :: str and ls src x tr rest
  assume "(tr, rest) = x" "x = take_translation ls"
  then have "length rest \<le> length ls"
    by (auto simp: take_translation_def split: list.splits if_splits)
  moreover have "length (dropWhile is_blank rest) \<le> length rest"
    by (rule length_dropWhile_le)
  ultimately show "((insert src seen, dropWhile is_blank rest), (seen, l # ls))
      \<in> measure (\<lambda>(seen, ls). length ls)"
    by simp
next
  fix seen :: "str set" and l :: str and ls src
  show "((seen, dropWhile (\<lambda>x. startswith x (ascii ''>'') \<or> is_blank x) ls), (seen, l # ls))
      \<in> measure (\<lambda>(seen, ls). length ls)"
    using length_dropWhile_le [of "\<lambda>x. startswith x (ascii ''>'') \<or> is_blank x" ls] by simp
next
  fix seen :: "str set" and l :: str and ls
  show "((seen, ls), (seen, l # ls)) \<in> measure (\<lambda>(seen, ls). length ls)" by simp
qed

text \<open>\<open>deduplicate_rpt\<close> on the content of the file: the content read as lines, the loop,
  and \<open>writelines\<close> with \<open>newline=""\<close>, which writes the lines as they are.\<close>

definition deduplicate_rpt :: "str \<Rightarrow> str" where
  "deduplicate_rpt content =
     concat (deduplicate_lines {} (readlines (universal_newlines content)))"

subsection \<open>Vocabulary of the deduplication claims\<close>

text \<open>A source line starts with the two characters \<open><\<close> and space; its payload is what
  follows them, with trailing whitespace stripped.  A translation line starts with \<open>>\<close>.\<close>

definition is_source :: "str \<Rightarrow> bool" where
  "is_source l \<longleftrightarrow> startswith l (ascii ''< '')"

definition payload :: "str \<Rightarrow> str" where
  "payload l = rstrip (drop 2 l)"

definition is_translation :: "str \<Rightarrow> bool" where
  "is_translation l \<longleftrightarrow> startswith l (ascii ''>'')"

definition source_payloads :: "str list \<Rightarrow> str list" where
  "source_payloads ls = map payload (filter is_source ls)"

text \<open>The lines of a file as \<open>deduplicate_rpt\<close> reads them.\<close>

definition file_lines :: "str \<Rightarrow> str list" where
  "file_lines content = readlines (universal_newlines content)"

text \<open>Of a list of lines, those whose payload no earlier line of the list and no member
  of \<open>seen\<close> has: the first occurrences.\<close>

fun first_occurrences :: "str set \<Rightarrow> str list \<Rightarrow> str list" where
  "first_occurrences seen [] = []"
| "first_occurrences seen (l # ls) =
     (if payload l \<in> seen then first_occurrences seen ls
      else l # first_occurrences (insert (payload l) seen) ls)"

text \<open>
  The loop seen as a filter with one flag, used in the proofs: a line is dropped when it is
  a source line with a payload already met, or when it starts with \<open>>\<close> or is blank and
  every line since the last dropped source line was dropped too.
\<close>

fun dedup_filter :: "str set \<Rightarrow> bool \<Rightarrow> str list \<Rightarrow> str list" where
  "dedup_filter seen skipping [] = []"
| "dedup_filter seen skipping (l # ls) =
     (if is_source l then
        (if payload l \<in> seen then dedup_filter seen True ls
         else l # dedup_filter (insert (payload l) seen) False ls)
      else if skipping \<and> (is_translation l \<or> is_blank l) then dedup_filter seen True ls
      else l # dedup_filter seen False ls)"

text \<open>What \<open>readlines\<close> returns: no line is empty, none holds a carriage return, a newline
  stands only at the end of a line, and only the last line may lack it.\<close>

fun wf_lines :: "str list \<Rightarrow> bool" where
  "wf_lines [] = True"
| "wf_lines (l # ls) \<longleftrightarrow>
     l \<noteq> [] \<and> CR \<notin> set l \<and> LF \<notin> set (butlast l) \<and> (ls \<noteq> [] \<longrightarrow> last l = LF) \<and> wf_lines ls"

section \<open>Decoding a script literal\<close>

text \<open>
  The body of a single-line dialogue is decoded by
  \<open>m.group("text").encode("utf-8").decode("unicode_escape")\<close> (line 59).  Bytes are
  natural numbers below 256.  The exceptions of the program are values of \<open>py_error\<close>.
\<close>

type_synonym bytes = "nat list"

datatype py_error = UnicodeEncodeError | UnicodeDecodeError | FileNotFoundError

text \<open>The tables of the Unicode character database that the program reaches through the
  standard library: which code points above ASCII are alphanumeric (for \<open>\w\<close>), and the
  code point of a character name (for the escape \<open>\N{name}\<close>).  They are parameters.\<close>

record unicodedata =
  alnum :: "nat \<Rightarrow> bool"
  lookup :: "bytes \<Rightarrow> nat option"

text \<open>\<open>str.encode("utf-8")\<close>: strict, so a surrogate is an error.\<close>

definition encode_char :: "nat \<Rightarrow> py_error + bytes" where
  "encode_char c =
     (if c < 128 then Inr [c]
      else if c < 2048 then Inr [192 + c div 64, 128 + c mod 64]
      else if c < 65536 then
        (if 55296 \<le> c \<and> c \<le> 57343 then Inl UnicodeEncodeError
         else Inr [224 + c div 4096, 128 + (c div 64) mod 64, 128 + c mod 64])
      else if c < 1114112 then
        Inr [240 + c div 262144, 128 + (c div 4096) mod 64, 128 + (c div 64) mod 64,
             128 + c mod 64]
      else Inl UnicodeEncodeError)"

fun utf8_encode :: "str \<Rightarrow> py_error + bytes" where
  "utf8_encode [] = Inr []"
| "utf8_encode (c # cs) =
     (case encode_char c of
        Inl e \<Rightarrow> Inl e
      | Inr b \<Rightarrow> (case utf8_encode cs of Inl e \<Rightarrow> Inl e | Inr bs \<Rightarrow> Inr (b @ bs)))"

text \<open>The value of a hexadecimal digit and of an octal digit, given as bytes.\<close>

definition hex_digit :: "nat \<Rightarrow> nat option" where
  "hex_digit b =
     (if 48 \<le> b \<and> b \<le> 57 then Some (b - 48)
      else if 97 \<le> b \<and> b \<le> 102 then Some (b - 87)
      else if 65 \<le> b \<and> b \<le> 70 then Some (b - 55)
      else None)"

definition is_octal :: "nat \<Rightarrow> bool" where
  "is_octal b \<longleftrightarrow> 48 \<le> b \<and> b \<le> 55"

text \<open>The \<open>count\<close> hexadecimal digits of \<open>\x\<close>, \<open>\u\<close> and \<open>\U\<close>: an error when the input
  ends early, when a digit is missing or when the value is above \<open>0x10FFFF\<close>.\<close>

fun hex_value :: "nat \<Rightarrow> nat \<Rightarrow> bytes \<Rightarrow> nat option" where
  "hex_value 0 acc s = (if acc > 1114111 then None else Some acc)"
| "hex_value (Suc n) acc [] = None"
| "hex_value (Suc n) acc (b # s) =
     (case hex_digit b of None \<Rightarrow> None | Some d \<Rightarrow> hex_value n (acc * 16 + d) s)"

text \<open>An octal escape has one to three digits; \<open>octal_more\<close> counts those after the
  first, \<open>octal_value\<close> reads them.\<close>

definition octal_more :: "bytes \<Rightarrow> nat" where
  "octal_more s =
     (case s of
        [] \<Rightarrow> 0
      | a # t \<Rightarrow> if is_octal a then (case t of [] \<Rightarrow> 1 | b # _ \<Rightarrow> if is_octal b then 2 else 1)
               else 0)"

definition octal_value :: "nat \<Rightarrow> bytes \<Rightarrow> nat" where
  "octal_value e s = foldl (\<lambda>v b. v * 8 + (b - 48)) (e - 48) (take (octal_more s) s)"

text \<open>The one-letter escapes.\<close>

definition simple_escape :: "nat \<Rightarrow> nat option" where
  "simple_escape e =
     (if e = BSL then Some BSL
      else if e = 39 then Some 39
      else if e = DQ then Some DQ
      else if e = of_char CHR ''b'' then Some 8
      else if e = of_char CHR ''f'' then Some 12
      else if e = of_char CHR ''t'' then Some 9
      else if e = of_char CHR ''n'' then Some LF
      else if e = of_char CHR ''r'' then Some CR
      else if e = of_char CHR ''v'' then Some 11
      else if e = of_char CHR ''a'' then Some 7
      else None)"

definition emit :: "nat \<Rightarrow> py_error + str \<Rightarrow> py_error + str" where
  "emit c r = (case r of Inl e \<Rightarrow> Inl e | Inr s \<Rightarrow> Inr (c # s))"

text \<open>
  \<open>bytes.decode("unicode_escape")\<close>, strict.  A byte that is not a backslash stands for the
  code point of the same number (Latin-1).  After a backslash: a newline is skipped with
  it; a one-letter escape gives its character; up to three octal digits, or \<open>x\<close>, \<open>u\<close>,
  \<open>U\<close> with two, four, eight hexadecimal digits, give the code point they write;
  \<open>N{name}\<close> gives the character of that name; any other character stays behind its
  backslash.  A backslash at the end and a malformed escape raise.
\<close>

function unicode_escape_decode :: "unicodedata \<Rightarrow> bytes \<Rightarrow> py_error + str" where
  "unicode_escape_decode db [] = Inr []"
| "unicode_escape_decode db [c] = (if c = BSL then Inl UnicodeDecodeError else Inr [c])"
| "unicode_escape_decode db (c # e # s) =
     (if c \<noteq> BSL then emit c (unicode_escape_decode db (e # s))
      else if e = LF then unicode_escape_decode db s
      else if simple_escape e \<noteq> None then emit (the (simple_escape e)) (unicode_escape_decode db s)
      else if is_octal e then
        emit (octal_value e s) (unicode_escape_decode db (drop (octal_more s) s))
      else if e = of_char CHR ''x'' then
        (case hex_value 2 0 s of
           None \<Rightarrow> Inl UnicodeDecodeError
         | Some v \<Rightarrow> emit v (unicode_escape_decode db (drop 2 s)))
      else if e = of_char CHR ''u'' then
        (case hex_value 4 0 s of
           None \<Rightarrow> Inl UnicodeDecodeError
         | Some v \<Rightarrow> emit v (unicode_escape_decode db (drop 4 s)))
      else if e = of_char CHR ''U'' then
        (case hex_value 8 0 s of
           None \<Rightarrow> Inl UnicodeDecodeError
         | Some v \<Rightarrow> emit v (unicode_escape_decode db (drop 8 s)))
      else if e = of_char CHR ''N'' then
        (case s of
           [] \<Rightarrow> Inl UnicodeDecodeError
         | b # t \<Rightarrow>
             if b = of_char CHR ''{'' \<and> dropWhile (\<lambda>x. x \<noteq> of_char CHR ''}'') t \<noteq> []
                \<and> takeWhile (\<lambda>x. x \<noteq> of_char CHR ''}'') t \<noteq> []
             then (case lookup db (takeWhile (\<lambda>x. x \<noteq> of_char CHR ''}'') t) of
                     None \<Rightarrow> Inl UnicodeDecodeError
                   | Some v \<Rightarrow>
                       emit v (unicode_escape_decode db
                                 (tl (dropWhile (\<lambda>x. x \<noteq> of_char CHR ''}'') t))))
             else Inl UnicodeDecodeError)
      else emit BSL (emit e (unicode_escape_decode db s)))"
  by pat_completeness auto
termination
proof (relation "measure (\<lambda>(db, s). length s)", goal_cases)
  case (9 db c e s b t v)
  have "length (tl (dropWhile (\<lambda>x. x \<noteq> of_char CHR ''}'') t)) \<le> length t"
    using length_dropWhile_le [of "\<lambda>x. x \<noteq> of_char CHR ''}''" t] by simp
  then show ?case using 9 by simp
qed simp_all

text \<open>The decoding of line 59 as a whole.\<close>

definition unescape :: "unicodedata \<Rightarrow> str \<Rightarrow> py_error + str" where
  "unescape db s =
     (case utf8_encode s of
        Inl e \<Rightarrow> Inl e
      | Inr b \<Rightarrow> unicode_escape_decode db b)"

text \<open>A database without entries, for runs on ASCII sources, which never consult it.\<close>

definition no_unicodedata :: unicodedata where
  "no_unicodedata = \<lparr>alnum = (\<lambda>c. False), lookup = (\<lambda>n. None)\<rparr>"

section \<open>Regular expressions\<close>

text \<open>
  The patterns of the program are values of \<open>regex\<close>, the syntax tree that \<open>re.compile\<close>
  builds from the pattern text.  The matcher follows the backtracking search of the
  \<open>re\<close> module: \<open>rmatch r st\<close> lists the states in which \<open>r\<close> can end when started in
  \<open>st\<close>, in the order in which the search tries them (the first alternative before the
  second, a greedy repetition longest first, a lazy one shortest first).  The match that
  \<open>re\<close> reports is the first of the list.

  A state is the flag "at the start of a line" (what \<open>^\<close> tests under \<open>MULTILINE\<close>), the
  text not yet consumed, and the groups captured so far, latest first.
\<close>

datatype gid = Named string | Index nat

type_synonym groups = "(gid \<times> str) list"

type_synonym mstate = "bool \<times> str \<times> groups"

datatype regex =
    Eps
  | Bol
  | Lit str
  | Cls "nat \<Rightarrow> bool"
  | Seq regex regex
  | Alt regex regex
  | Star bool regex
  | Grp gid regex

text \<open>A repetition goes round again only after an iteration that consumed text; no
  pattern of the program has a repeated part that can match the empty text.\<close>

function rmatch :: "regex \<Rightarrow> mstate \<Rightarrow> mstate list" where
  "rmatch Eps st = [st]"
| "rmatch Bol (b, s, g) = (if b then [(b, s, g)] else [])"
| "rmatch (Lit l) (b, s, g) =
     (if l = [] then [(b, s, g)]
      else if take (length l) s = l then [(last l = LF, drop (length l) s, g)]
      else [])"
| "rmatch (Cls P) (b, s, g) =
     (case s of [] \<Rightarrow> [] | c # cs \<Rightarrow> if P c then [(c = LF, cs, g)] else [])"
| "rmatch (Seq r1 r2) st = concat (map (rmatch r2) (rmatch r1 st))"
| "rmatch (Alt r1 r2) st = rmatch r1 st @ rmatch r2 st"
| "rmatch (Star greedy r) (b, s, g) =
     (let again = concat (map (rmatch (Star greedy r))
                    (filter (\<lambda>(b', s', g'). length s' < length s) (rmatch r (b, s, g))))
      in if greedy then again @ [(b, s, g)] else (b, s, g) # again)"
| "rmatch (Grp k r) (b, s, g) =
     map (\<lambda>(b', s', g'). (b', s', (k, take (length s - length s') s) # g'))
       (rmatch r (b, s, g))"
  by pat_completeness auto
termination
  by (relation "measures [\<lambda>(r, st). size r, \<lambda>(r, (b, s, g)). length s]") auto

text \<open>\<open>r+\<close>, and a sequence of parts.\<close>

definition Plus :: "regex \<Rightarrow> regex" where
  "Plus r = Seq r (Star True r)"

fun seqs :: "regex list \<Rightarrow> regex" where
  "seqs [] = Eps"
| "seqs [r] = r"
| "seqs (r # rs) = Seq r (seqs rs)"

text \<open>
  \<open>pattern.finditer(text)\<close>: the matches from left to right, without overlap.  At each
  position the first state of \<open>rmatch\<close> is the match; the search goes on where the match
  ended.  After an empty match the next one must consume text or start later
  (\<open>must_advance\<close>).  A match is given by its groups.
\<close>

function finditer_from :: "regex \<Rightarrow> bool \<Rightarrow> bool \<Rightarrow> str \<Rightarrow> groups list" where
  "finditer_from r must_advance b s =
     (case find (\<lambda>(b', s', g'). if must_advance then length s' < length s
                                 else length s' \<le> length s)
             (rmatch r (b, s, [])) of
        Some (b', s', g') \<Rightarrow>
          g' # (if length s' < length s then finditer_from r False b' s'
                else finditer_from r True b s)
      | None \<Rightarrow>
          (case s of [] \<Rightarrow> [] | c # cs \<Rightarrow> finditer_from r False (c = LF) cs))"
  by pat_completeness auto
termination
  by (relation "measures [\<lambda>(r, adv, b, s). length s, \<lambda>(r, adv, b, s). if adv then 0 else 1]")
    (auto simp: find_Some_iff split: if_splits)

definition finditer :: "regex \<Rightarrow> str \<Rightarrow> groups list" where
  "finditer r text = finditer_from r False True text"

text \<open>\<open>m.group(k)\<close>.  Every group read by the program takes part in every match of its
  pattern, so the program never sees \<open>None\<close> here.\<close>

definition group :: "groups \<Rightarrow> gid \<Rightarrow> str" where
  "group m k = (case map_of m k of Some t \<Rightarrow> t | None \<Rightarrow> [])"

text \<open>The character classes \<open>\s\<close> and \<open>\w\<close> of a \<open>str\<close> pattern.\<close>

definition is_word :: "unicodedata \<Rightarrow> nat \<Rightarrow> bool" where
  "is_word db c \<longleftrightarrow>
     (48 \<le> c \<and> c \<le> 57) \<or> (65 \<le> c \<and> c \<le> 90) \<or> (97 \<le> c \<and> c \<le> 122) \<or> c = 95
     \<or> (128 \<le> c \<and> alnum db c)"

abbreviation spaces :: regex where
  "spaces \<equiv> Star True (Cls is_space)"

section \<open>The program\<close>

subsection \<open>Files\<close>

text \<open>
  The file system maps a path to the content of the file there.  \<open>open(path).read()\<close>
  gives the content in universal-newlines mode and raises when there is no file.  The
  output file is kept apart from the file system: it is the \<open>output_file\<close> of a run.
\<close>

type_synonym filesystem = "str \<Rightarrow> str option"

definition read_text :: "filesystem \<Rightarrow> str \<Rightarrow> py_error + str" where
  "read_text fs path =
     (case fs path of
        None \<Rightarrow> Inl FileNotFoundError
      | Some raw \<Rightarrow> Inr (universal_newlines raw))"

text \<open>\<open>os.path.join\<close> of a directory and a relative name.\<close>

definition path_join :: "str \<Rightarrow> str \<Rightarrow> str" where
  "path_join a b =
     (if a = [] then b
      else if last a = of_char CHR ''/'' then a @ b
      else a @ ascii ''/'' @ b)"

subsection \<open>Character names\<close>

text \<open>\<open>DEFINE_RE\<close> (lines 9 to 12):
  \<^verbatim>\<open>^\s*(?:\$|define)\s+(?P<short>\w+)\s*=\s*Character\(\<close> with \<open>MULTILINE\<close>.\<close>

definition DEFINE_RE :: "unicodedata \<Rightarrow> regex" where
  "DEFINE_RE db =
     seqs [Bol, spaces, Alt (Lit (ascii ''$'')) (Lit (ascii ''define'')),
           Plus (Cls is_space), Grp (Named ''short'') (Plus (Cls (is_word db))),
           spaces, Lit (ascii ''=''), spaces, Lit (ascii ''Character('')]"

text \<open>The names that the definitions of one text give, in the order of the matches.\<close>

definition defined_names :: "unicodedata \<Rightarrow> str \<Rightarrow> str list" where
  "defined_names db text = map (\<lambda>m. group m (Named ''short'')) (finditer (DEFINE_RE db) text)"

text \<open>The inner loop of \<open>gather_char_names\<close> (lines 30 to 33) and the loop over the files
  (lines 28 to 33).\<close>

fun add_names :: "str list \<Rightarrow> str list \<Rightarrow> str list" where
  "add_names names [] = names"
| "add_names names (short # others) =
     add_names (if short \<notin> set names then names @ [short] else names) others"

fun gather_loop :: "unicodedata \<Rightarrow> filesystem \<Rightarrow> str list \<Rightarrow> str list \<Rightarrow> py_error + str list" where
  "gather_loop db fs names [] = Inr names"
| "gather_loop db fs names (path # paths) =
     (case read_text fs path of
        Inl e \<Rightarrow> Inl e
      | Inr text \<Rightarrow> gather_loop db fs (add_names names (defined_names db text)) paths)"

definition gather_char_names :: "unicodedata \<Rightarrow> filesystem \<Rightarrow> str list \<Rightarrow> py_error + str list" where
  "gather_char_names db fs rpy_files = gather_loop db fs [] rpy_files"

subsection \<open>Dialogue patterns\<close>

text \<open>\<open>"|".join(re.escape(n) for n in char_names)\<close>: the names as literal alternatives,
  in their order; no name gives the empty pattern.\<close>

fun alternatives :: "str list \<Rightarrow> regex" where
  "alternatives [] = Eps"
| "alternatives [n] = Lit n"
| "alternatives (n # ns) = Alt (Lit n) (alternatives ns)"

text \<open>\<open>build_patterns\<close> (lines 36 to 49):
  \<^verbatim>\<open>^\s*(?P<char>NAMES)\s+"(?P<text>(?:[^"\\]|\\.)*)"\<close> with \<open>MULTILINE\<close> and
  \<^verbatim>\<open>^\s*(?P<char>NAMES)\s+"""\s*\n(?P<text>.*?)\s*"""\<close> with \<open>MULTILINE\<close> and
  \<open>DOTALL\<close>.\<close>

definition single_pattern :: "str list \<Rightarrow> regex" where
  "single_pattern char_names =
     seqs [Bol, spaces, Grp (Named ''char'') (alternatives char_names), Plus (Cls is_space),
           Lit [DQ],
           Grp (Named ''text'')
             (Star True (Alt (Cls (\<lambda>c. c \<noteq> DQ \<and> c \<noteq> BSL))
                             (Seq (Lit [BSL]) (Cls (\<lambda>c. c \<noteq> LF))))),
           Lit [DQ]]"

definition multi_pattern :: "str list \<Rightarrow> regex" where
  "multi_pattern char_names =
     seqs [Bol, spaces, Grp (Named ''char'') (alternatives char_names), Plus (Cls is_space),
           Lit [DQ, DQ, DQ], spaces, Lit [LF],
           Grp (Named ''text'') (Star False (Cls (\<lambda>c. True))),
           spaces, Lit [DQ, DQ, DQ]]"

definition build_patterns :: "str list \<Rightarrow> regex \<times> regex" where
  "build_patterns char_names = (single_pattern char_names, multi_pattern char_names)"

text \<open>\<open>menu_choice_re\<close> (line 67): \<^verbatim>\<open>^\s*"([^"]+)"\s*:\<close> with \<open>MULTILINE\<close>.\<close>

definition menu_choice_re :: regex where
  "menu_choice_re =
     seqs [Bol, spaces, Lit [DQ], Grp (Index 1) (Plus (Cls (\<lambda>c. c \<noteq> DQ))), Lit [DQ],
           spaces, Lit (ascii '':'')]"

subsection \<open>Dialogue extraction\<close>

text \<open>The first error of a list of results, or all the values.\<close>

fun collect :: "(py_error + 'a) list \<Rightarrow> py_error + 'a list" where
  "collect [] = Inr []"
| "collect (x # xs) =
     (case x of
        Inl e \<Rightarrow> Inl e
      | Inr v \<Rightarrow> (case collect xs of Inl e \<Rightarrow> Inl e | Inr vs \<Rightarrow> Inr (v # vs)))"

text \<open>The three loops of \<open>extract_dialogues\<close> on the content of one file: lines 58 to 60,
  62 to 65 and 67 to 70.\<close>

definition single_texts :: "unicodedata \<Rightarrow> regex \<Rightarrow> str \<Rightarrow> py_error + str list" where
  "single_texts db single_re content =
     collect (map (\<lambda>m. case unescape db (group m (Named ''text'')) of
                          Inl e \<Rightarrow> Inl e
                        | Inr raw \<Rightarrow> Inr (strip raw))
                (finditer single_re content))"

definition block_text :: "str \<Rightarrow> str" where
  "block_text raw = strip (join [LF] (map rstrip (splitlines raw)))"

definition multi_texts :: "regex \<Rightarrow> str \<Rightarrow> str list" where
  "multi_texts multi_re content =
     map (\<lambda>m. block_text (group m (Named ''text''))) (finditer multi_re content)"

definition menu_texts :: "str \<Rightarrow> str list" where
  "menu_texts content = map (\<lambda>m. strip (group m (Index 1))) (finditer menu_choice_re content)"

definition extract_dialogues ::
    "unicodedata \<Rightarrow> filesystem \<Rightarrow> str \<Rightarrow> regex \<Rightarrow> regex \<Rightarrow> py_error + str list" where
  "extract_dialogues db fs rpy_path single_re multi_re =
     (case read_text fs rpy_path of
        Inl e \<Rightarrow> Inl e
      | Inr content \<Rightarrow>
          (case single_texts db single_re content of
             Inl e \<Rightarrow> Inl e
           | Inr singles \<Rightarrow> Inr (singles @ multi_texts multi_re content @ menu_texts content)))"

subsection \<open>Screen texts\<close>

text \<open>\<open>extract_screen_texts\<close> (lines 74 to 83):
  \<^verbatim>\<open>(label|textbutton)\s+_\("([^"]+)"\)\<close>.\<close>

definition screen_pattern :: regex where
  "screen_pattern =
     seqs [Grp (Index 1) (Alt (Lit (ascii ''label'')) (Lit (ascii ''textbutton''))),
           Plus (Cls is_space), Lit (ascii ''_('' @ [DQ]),
           Grp (Index 2) (Plus (Cls (\<lambda>c. c \<noteq> DQ))), Lit (DQ # ascii '')'')]"

definition extract_screen_texts :: "filesystem \<Rightarrow> str \<Rightarrow> py_error + str list" where
  "extract_screen_texts fs screens_path =
     (case read_text fs screens_path of
        Inl e \<Rightarrow> Inl e
      | Inr content \<Rightarrow> Inr (map (\<lambda>m. group m (Index 2)) (finditer screen_pattern content)))"

subsection \<open>The run\<close>

text \<open>The fixed texts written after the screen texts (lines 168 to 210).\<close>

definition digit_str :: "nat \<Rightarrow> str" where
  "digit_str i = [48 + i]"

definition empty_slots :: "str list" where
  "empty_slots = map (\<lambda>i. ascii '' '' @ digit_str i @ ascii ''. Empty Slot.'') [1..<10]"

definition quit_message :: str where
  "quit_message = ascii ''Are you sure you want to quit?''"

definition joystick_lines :: "str list" where
  "joystick_lines = map ascii
     [''Joystick Configuration'',
      ''Left - Axis 0.0 Negative'',
      ''Right - Axis 0.0 Positive'',
      ''Up - Axis 0.1 Negative'',
      ''Down - Axis 0.1 Positive'',
      ''Select/Dismiss - Button 0.0'',
      ''Rollback - Not Assigned'',
      ''Hold to Skip - Not Assigned'',
      ''Toggle Skip - Not Assigned'',
      ''Hide Text - Not Assigned'',
      ''Menu - Button 0.7'',
      ''Joystick Mapping - Left'',
      ''Joystick Mapping - Right'',
      ''Joystick Mapping - Up'',
      ''Joystick Mapping - Down'',
      ''Joystick Mapping - Select/Dismiss'',
      ''Joystick Mapping - Rollback'',
      ''Joystick Mapping - Hold to Skip'',
      ''Joystick Mapping - Toggle Skip'',
      ''Joystick Mapping - Hide Text'',
      ''Joystick Mapping - Menu'',
      ''Move the joystick or press a joystick button to create the mapping. Click the mouse to remove the mapping.'']"

text \<open>What the first phase writes when \<open>screens.rpy\<close> is there (lines 157 to 210), with
  \<open>\n\<close> as the line terminator.\<close>

definition write_records :: "str \<Rightarrow> bool \<Rightarrow> str list \<Rightarrow> str" where
  "write_records eol fill_template texts = concat (map (write_record eol fill_template) texts)"

definition screens_phase :: "bool \<Rightarrow> str list \<Rightarrow> str" where
  "screens_phase fill_template label_texts =
     write_records [LF] fill_template label_texts
     @ write_records [LF] fill_template empty_slots
     @ write_record [LF] fill_template quit_message
     @ write_records [LF] fill_template joystick_lines"

text \<open>The loop over the files of step 5 (lines 231 to 233): the texts of all files, or
  the first error; with them the paths given to \<open>extract_dialogues\<close> so far.\<close>

fun extract_all ::
    "unicodedata \<Rightarrow> filesystem \<Rightarrow> regex \<Rightarrow> regex \<Rightarrow> str list \<Rightarrow> str list \<times> (py_error + str list)" where
  "extract_all db fs single_re multi_re [] = ([], Inr [])"
| "extract_all db fs single_re multi_re (path # paths) =
     (case extract_dialogues db fs path single_re multi_re of
        Inl e \<Rightarrow> ([path], Inl e)
      | Inr texts \<Rightarrow>
          (case extract_all db fs single_re multi_re paths of
             (scanned, Inl e) \<Rightarrow> (path # scanned, Inl e)
           | (scanned, Inr later) \<Rightarrow> (path # scanned, Inr (texts @ later))))"

text \<open>Step 6 (lines 236 to 241): the texts that are not empty, each once, in the order of
  their first occurrence.\<close>

fun unique_texts :: "str set \<Rightarrow> str list \<Rightarrow> str list" where
  "unique_texts seen [] = []"
| "unique_texts seen (t # ts) =
     (if t \<noteq> [] \<and> t \<notin> seen then t # unique_texts (insert t seen) ts
      else unique_texts seen ts)"

text \<open>
  A run ends with a status (\<open>None\<close> when it runs to its end, the failure otherwise), the
  content of the output file (\<open>None\<close> when it was never opened) and the paths on which
  \<open>extract_dialogues\<close> was called, in order.
\<close>

datatype failure = NoRpyFiles | NoCharacterDefinitions | NoDialogueLines | Raised py_error

record run =
  status :: "failure option"
  output_file :: "str option"
  dialogue_scans :: "str list"

text \<open>Step 7 (lines 247 to 252): a text that UTF-8 cannot encode stops the writing at its
  record; the records before it are in the file.\<close>

definition encodable :: "str \<Rightarrow> bool" where
  "encodable t \<longleftrightarrow> (case utf8_encode t of Inl e \<Rightarrow> False | Inr b \<Rightarrow> True)"

text \<open>Step 2 (lines 217 to 220): \<open>script.rpy\<close> of the input directory goes to the front.\<close>

definition script_first :: "str \<Rightarrow> str list \<Rightarrow> str list" where
  "script_first input_dir rpy_files =
     (let script_path = path_join input_dir (ascii ''script.rpy'')
      in if script_path \<in> set rpy_files
         then script_path # remove1 script_path rpy_files else rpy_files)"

text \<open>Steps 3 to 7 and the final deduplication (lines 222 to 255); \<open>written\<close> is the
  content of the output file after the first phase.\<close>

definition extraction_phase ::
    "unicodedata \<Rightarrow> filesystem \<Rightarrow> str list \<Rightarrow> bool \<Rightarrow> str \<Rightarrow> run" where
  "extraction_phase db fs files fill_template written =
     (case gather_char_names db fs files of
        Inl e \<Rightarrow>
          \<lparr>status = Some (Raised e), output_file = Some written, dialogue_scans = []\<rparr>
      | Inr char_names \<Rightarrow>
          if char_names = [] then
            \<lparr>status = Some NoCharacterDefinitions, output_file = Some written,
             dialogue_scans = []\<rparr>
          else
            (case build_patterns char_names of (single_re, multi_re) \<Rightarrow>
             (case extract_all db fs single_re multi_re files of
                (scanned, Inl e) \<Rightarrow>
                  \<lparr>status = Some (Raised e), output_file = Some written,
                   dialogue_scans = scanned\<rparr>
              | (scanned, Inr all_texts) \<Rightarrow>
                  let unique = unique_texts {} all_texts in
                  if unique = [] then
                    \<lparr>status = Some NoDialogueLines, output_file = Some written,
                     dialogue_scans = scanned\<rparr>
                  else if \<not> list_all encodable unique then
                    \<lparr>status = Some (Raised UnicodeEncodeError),
                     output_file = Some (written @ write_records [CR, LF] fill_template
                                          (takeWhile encodable unique)),
                     dialogue_scans = scanned\<rparr>
                  else
                    \<lparr>status = None,
                     output_file = Some (deduplicate_rpt
                       (written @ write_records [CR, LF] fill_template unique)),
                     dialogue_scans = scanned\<rparr>)))"

text \<open>
  \<open>main\<close> (lines 123 to 258) after the parsing of the arguments.  \<open>rpy_files\<close> is what
  \<open>glob\<close> returned for the input directory.  The first phase (lines 152 to 214) writes
  the screen texts and the fixed texts when \<open>screens.rpy\<close> is a file of the input
  directory, and leaves the output file empty otherwise.
\<close>

definition main ::
    "unicodedata \<Rightarrow> filesystem \<Rightarrow> str list \<Rightarrow> str \<Rightarrow> bool \<Rightarrow> run" where
  "main db fs rpy_files input_dir fill_template =
     (if rpy_files = [] then
        \<lparr>status = Some NoRpyFiles, output_file = None, dialogue_scans = []\<rparr>
      else
        let screens_path = path_join input_dir (ascii ''screens.rpy'');
            files = script_first input_dir rpy_files
        in if fs screens_path \<noteq> None then
             (case extract_screen_texts fs screens_path of
                Inl e \<Rightarrow> \<lparr>status = Some (Raised e), output_file = None, dialogue_scans = []\<rparr>
              | Inr label_texts \<Rightarrow>
                  extraction_phase db fs files fill_template
                    (screens_phase fill_template label_texts))
           else extraction_phase db fs files fill_template [])"

subsection \<open>Vocabulary of the claims about the run\<close>

text \<open>A list without its repetitions, each element at the place of its first
  occurrence.\<close>

definition first_seen :: "'a list \<Rightarrow> 'a list" where
  "first_seen xs = rev (remdups (rev xs))"

text \<open>The script and the screen source of the examples.\<close>

definition line :: "string \<Rightarrow> str" where
  "line s = ascii s @ [LF]"

definition quoted :: "string \<Rightarrow> str" where
  "quoted s = DQ # ascii s @ [DQ]"

text \<open>Scenario 3 of the specification: the only source is the screen source, with a
  label and a button.\<close>

definition screens_source :: str where
  "screens_source =
     ascii ''label _('' @ quoted ''Start Game'' @ line '')''
     @ ascii ''textbutton _('' @ quoted ''Quit'' @ line '')''"

definition scenario3_fs :: filesystem where
  "scenario3_fs path =
     (if path = ascii ''game/screens.rpy'' then Some screens_source else None)"

text \<open>The same screen source beside a script that defines a character and has no
  dialogue.\<close>

definition silent_fs :: filesystem where
  "silent_fs path =
     (if path = ascii ''game/screens.rpy'' then Some screens_source
      else if path = ascii ''game/script.rpy''
        then Some (ascii ''define e = Character('' @ quoted ''Eve'' @ line '')'')
      else None)"

text \<open>A script without a character definition.\<close>

definition undefined_fs :: filesystem where
  "undefined_fs path =
     (if path = ascii ''game/script.rpy'' then Some (ascii ''e '' @ quoted ''Hi'' @ [LF])
      else None)"

text \<open>A script with one character and one triple-quoted block of one line.\<close>

definition block_script :: str where
  "block_script =
     ascii ''define e = Character('' @ quoted ''Eve'' @ line '')''
     @ ascii ''e '' @ [DQ, DQ, DQ, LF] @ line ''  Hello '' @ [DQ, DQ, DQ, LF]"

definition block_fs :: filesystem where
  "block_fs path = (if path = ascii ''game/script.rpy'' then Some block_script else None)"

section \<open>Properties of the escaper\<close>

lemma replace_one_char:
  "str_replace [a] new s = concat (map (\<lambda>c. if c = a then new else [c]) s)"
  by (induction s) simp_all

lemma quote_concat: "quote s = concat (map escape_char s)"
proof -
  have "str_replace [LF] [BSL, 110] (concat (map (\<lambda>c. if c = BSL then [BSL, BSL] else [c]) s))
        = concat (map escape_char s)"
    by (induction s) (simp_all add: escape_char_def)
  then show ?thesis
    by (simp add: quote_def replace_one_char [of BSL])
qed

lemma quote_empty: "quote [] = []"
  by (simp add: quote_def)

text \<open>
  Claim C5.  \<open>quote\<close> is the replacement of every backslash by two backslashes followed by
  the replacement of every newline by backslash and \<open>n\<close>; its net effect maps each
  backslash to two backslashes, each newline to backslash-n and every other character to
  itself.  Both lines of a written record carry this transform: the source line holds the
  quoted source, the translation line the quoted translation, where the translation is
  the source under \<open>fill_template\<close> and empty otherwise.
\<close>

theorem quote_escapes:
  "quote s = str_replace [LF] [BSL, of_char CHR ''n''] (str_replace [BSL] [BSL, BSL] s)
   \<and> quote s = concat (map escape_char s)
   \<and> escape_char BSL = [BSL, BSL] \<and> escape_char LF = [BSL, of_char CHR ''n'']
   \<and> (c \<noteq> BSL \<and> c \<noteq> LF \<longrightarrow> escape_char c = [c])
   \<and> write_record eol fill orig =
       ascii ''< '' @ quote orig @ eol @
       ascii ''> '' @ quote (if fill then orig else []) @ eol @ eol"
  by (simp add: quote_concat [symmetric] write_record_def quote_empty escape_char_def)
     (simp add: quote_def)

theorem quote_escapes_witness:
  "of_char CHR ''a'' \<noteq> BSL \<and> of_char CHR ''a'' \<noteq> LF
   \<and> escape_char (of_char CHR ''a'') = ascii ''a''
   \<and> quote [of_char CHR ''a'', BSL, LF, of_char CHR ''b''] =
       [of_char CHR ''a'', BSL, BSL, BSL, of_char CHR ''n'', of_char CHR ''b'']"
  using quote_escapes [of "[of_char CHR ''a'', BSL, LF, of_char CHR ''b'']" "of_char CHR ''a''"]
  by (simp add: escape_char_def ascii_def)

section \<open>Properties of the deduplicator\<close>

lemma strip_empty_iff: "strip l = [] \<longleftrightarrow> (\<forall>c\<in>set l. is_space c)"
proof
  assume e: "strip l = []"
  let ?r = "dropWhile is_space (rev l)"
  have all: "\<forall>c\<in>set ?r. is_space c"
    using e by (simp add: strip_def lstrip_def rstrip_def dropWhile_eq_Nil_conv)
  have "?r = []"
  proof (rule ccontr)
    assume ne: "?r \<noteq> []"
    then have "\<not> is_space (hd ?r)" by (rule hd_dropWhile)
    moreover have "hd ?r \<in> set ?r" using ne by simp
    ultimately show False using all by blast
  qed
  then show "\<forall>c\<in>set l. is_space c"
    by (simp add: dropWhile_eq_Nil_conv)
next
  assume "\<forall>c\<in>set l. is_space c"
  then have "dropWhile is_space (rev l) = []"
    by (simp add: dropWhile_eq_Nil_conv)
  then show "strip l = []"
    by (simp only: strip_def lstrip_def rstrip_def rev.simps dropWhile.simps)
qed

lemma source_not_translation: "is_source l \<Longrightarrow> \<not> is_translation l"
  by (cases l) (auto simp: is_source_def is_translation_def startswith_def ascii_def)

lemma source_not_blank: "is_source l \<Longrightarrow> \<not> is_blank l"
  by (cases l) (auto simp: is_source_def is_blank_def strip_empty_iff startswith_def ascii_def is_space_def)

lemma filter_skip_run:
  "dedup_filter seen True ls =
   dedup_filter seen False (dropWhile (\<lambda>x. is_translation x \<or> is_blank x) ls)"
proof (induction ls)
  case Nil
  show ?case by simp
next
  case (Cons l ls)
  show ?case
  proof (cases "is_source l")
    case True
    then show ?thesis
      by (simp add: source_not_translation source_not_blank)
  next
    case False
    then show ?thesis using Cons.IH by simp
  qed
qed

lemma filter_blank_run:
  "dedup_filter seen False ls =
   takeWhile is_blank ls @ dedup_filter seen False (dropWhile is_blank ls)"
proof (induction ls)
  case Nil
  show ?case by simp
next
  case (Cons l ls)
  show ?case
  proof (cases "is_blank l")
    case True
    then have "\<not> is_source l" using source_not_blank by blast
    then show ?thesis using True Cons.IH by simp
  next
    case False
    then show ?thesis by simp
  qed
qed

lemma translation_not_source: "is_translation l \<Longrightarrow> \<not> is_source l"
  using source_not_translation by blast

lemma filter_translation:
  "take_translation ls = (tr, rest) \<Longrightarrow>
   dedup_filter seen False ls = tr @ dedup_filter seen False rest"
  by (cases ls) (auto simp: take_translation_def is_translation_def [symmetric]
      translation_not_source split: if_splits)

lemma deduplicate_lines_filter:
  "deduplicate_lines seen ls = map crlf (dedup_filter seen False ls)"
proof (induction seen ls rule: deduplicate_lines.induct)
  case (1 seen)
  show ?case by simp
next
  case (2 seen l ls)
  show ?case
  proof (cases "is_source l")
    case False
    then show ?thesis using 2(3) by (simp add: is_source_def)
  next
    case src: True
    show ?thesis
    proof (cases "payload l \<in> seen")
      case True
      have "deduplicate_lines seen (l # ls) =
            deduplicate_lines seen (dropWhile (\<lambda>x. startswith x (ascii ''>'') \<or> is_blank x) ls)"
        using src True by (simp add: is_source_def payload_def)
      also have "\<dots> = map crlf (dedup_filter seen False
            (dropWhile (\<lambda>x. startswith x (ascii ''>'') \<or> is_blank x) ls))"
        using 2(2) src True by (simp add: is_source_def payload_def)
      also have "\<dots> = map crlf (dedup_filter seen True ls)"
        by (simp add: filter_skip_run is_translation_def)
      finally show ?thesis using src True by simp
    next
      case False
      obtain tr rest where tt: "take_translation ls = (tr, rest)"
        by (cases "take_translation ls")
      have ih: "deduplicate_lines (insert (payload l) seen) (dropWhile is_blank rest) =
            map crlf (dedup_filter (insert (payload l) seen) False (dropWhile is_blank rest))"
        using 2(1) [OF _ refl _ _ refl, of tr rest] src False tt
        by (simp add: is_source_def payload_def)
      have "deduplicate_lines seen (l # ls) =
            crlf l # map crlf tr @ map crlf (takeWhile is_blank rest) @
            deduplicate_lines (insert (payload l) seen) (dropWhile is_blank rest)"
        using src False tt by (simp add: is_source_def payload_def)
      also have "\<dots> = map crlf (l # tr @ takeWhile is_blank rest @
            dedup_filter (insert (payload l) seen) False (dropWhile is_blank rest))"
        by (simp add: ih)
      also have "\<dots> = map crlf (l # tr @ dedup_filter (insert (payload l) seen) False rest)"
        using filter_blank_run [of "insert (payload l) seen" rest] by simp
      also have "\<dots> = map crlf (l # dedup_filter (insert (payload l) seen) False ls)"
        using filter_translation [OF tt] by simp
      finally show ?thesis using src False by simp
    qed
  qed
qed

lemma filter_payloads_fresh:
  "set (source_payloads (dedup_filter seen b ls)) \<inter> seen = {}"
  by (induction ls arbitrary: seen b) (auto simp: source_payloads_def)

lemma filter_payloads_distinct:
  "distinct (source_payloads (dedup_filter seen b ls))"
proof (induction ls arbitrary: seen b)
  case Nil
  show ?case by (simp add: source_payloads_def)
next
  case (Cons l ls)
  show ?case
  proof (cases "is_source l \<and> payload l \<notin> seen")
    case True
    have "payload l \<notin> set (source_payloads (dedup_filter (insert (payload l) seen) False ls))"
      using filter_payloads_fresh [of "insert (payload l) seen" False ls] by blast
    then show ?thesis
      using True Cons.IH [of "insert (payload l) seen" False]
      by (simp add: source_payloads_def)
  next
    case False
    then show ?thesis
      using Cons.IH [of seen True] Cons.IH [of seen False]
      by (auto simp: source_payloads_def)
  qed
qed

lemma filter_sources_first:
  "filter is_source (dedup_filter seen b ls) = first_occurrences seen (filter is_source ls)"
  by (induction ls arbitrary: seen b) auto

lemma filter_fixpoint:
  "distinct (source_payloads ks) \<Longrightarrow> set (source_payloads ks) \<inter> seen = {} \<Longrightarrow>
   dedup_filter seen False ks = ks"
proof (induction ks arbitrary: seen)
  case Nil
  show ?case by simp
next
  case (Cons k ks)
  show ?case
  proof (cases "is_source k")
    case True
    have "dedup_filter (insert (payload k) seen) False ks = ks"
      using Cons.prems True by (intro Cons.IH) (auto simp: source_payloads_def)
    then show ?thesis using Cons.prems True by (simp add: source_payloads_def)
  next
    case False
    have "dedup_filter seen False ks = ks"
      using Cons.prems False by (intro Cons.IH) (auto simp: source_payloads_def)
    then show ?thesis using False by simp
  qed
qed

lemma filter_idem:
  "dedup_filter {} False (dedup_filter {} False ls) = dedup_filter {} False ls"
  by (rule filter_fixpoint) (simp_all add: filter_payloads_distinct)

lemma filter_Nil_imp: "dedup_filter seen b ls \<noteq> [] \<Longrightarrow> ls \<noteq> []"
  by (cases ls) auto

lemma wf_lines_filter: "wf_lines ls \<Longrightarrow> wf_lines (dedup_filter seen b ls)"
proof (induction ls arbitrary: seen b)
  case Nil
  show ?case by simp
next
  case (Cons l ls)
  then have wl: "wf_lines ls" by simp
  have t: "\<And>s c. dedup_filter s c ls \<noteq> [] \<Longrightarrow> last l = LF"
    using Cons.prems filter_Nil_imp by fastforce
  show ?case using Cons.prems Cons.IH [OF wl] t by auto
qed

lemma universal_no_CR: "CR \<notin> set (universal_newlines s)"
  by (induction s rule: universal_newlines.induct) auto

lemma readlines_Nil_iff: "readlines s = [] \<longleftrightarrow> s = []"
  by (cases s) (auto split: list.splits)

lemma wf_lines_readlines: "CR \<notin> set s \<Longrightarrow> wf_lines (readlines s)"
proof (induction s)
  case Nil
  show ?case by simp
next
  case (Cons c cs)
  then have ih: "wf_lines (readlines cs)" by simp
  show ?case
  proof (cases "c = LF")
    case True
    then show ?thesis using ih by simp
  next
    case False
    show ?thesis
    proof (cases "readlines cs")
      case Nil
      then show ?thesis using False Cons.prems by simp
    next
      case (Cons l ls)
      then show ?thesis using False ih Cons.prems by (cases l) auto
    qed
  qed
qed

lemma wf_file_lines: "wf_lines (file_lines content)"
  by (simp add: file_lines_def wf_lines_readlines universal_no_CR)

lemma crlf_concat: "crlf l = concat (map (\<lambda>c. if c = LF then [CR, LF] else [c]) l)"
  by (simp add: crlf_def replace_one_char)

lemma universal_not_CR: "c \<noteq> CR \<Longrightarrow> universal_newlines (c # t) = c # universal_newlines t"
  by (cases t) simp_all

lemma universal_terminated:
  "CR \<notin> set b \<Longrightarrow> universal_newlines (b @ CR # LF # x) = b @ LF # universal_newlines x"
  by (induction b) (simp_all add: universal_not_CR)

lemma universal_id: "CR \<notin> set b \<Longrightarrow> universal_newlines b = b"
  by (induction b) (simp_all add: universal_not_CR)

lemma readlines_terminated:
  "LF \<notin> set b \<Longrightarrow> readlines (b @ LF # y) = (b @ [LF]) # readlines y"
  by (induction b) auto

lemma readlines_single: "LF \<notin> set b \<Longrightarrow> b \<noteq> [] \<Longrightarrow> readlines b = [b]"
proof (induction b)
  case Nil
  then show ?case by simp
next
  case (Cons c b)
  then show ?case by (cases "b = []") auto
qed

lemma crlf_plain: "LF \<notin> set b \<Longrightarrow> crlf b = b"
  by (induction b) (simp_all add: crlf_def)

lemma crlf_terminated: "LF \<notin> set b \<Longrightarrow> crlf (b @ [LF]) = b @ [CR, LF]"
  by (induction b) (simp_all add: crlf_def)

lemma reread_lines:
  "wf_lines ls \<Longrightarrow> readlines (universal_newlines (concat (map crlf ls))) = ls"
proof (induction ls)
  case Nil
  show ?case by simp
next
  case (Cons l ls)
  then have ih: "readlines (universal_newlines (concat (map crlf ls))) = ls" by simp
  from Cons.prems have ne: "l \<noteq> []" and nocr: "CR \<notin> set l"
    and nolf: "LF \<notin> set (butlast l)" and fin: "ls \<noteq> [] \<longrightarrow> last l = LF"
    by simp_all
  show ?case
  proof (cases "last l = LF")
    case True
    obtain b where l: "l = b @ [LF]"
      using ne True by (metis append_butlast_last_id)
    have b: "LF \<notin> set b" "CR \<notin> set b" using nolf nocr unfolding l by simp_all
    have "concat (map crlf (l # ls)) = b @ CR # LF # concat (map crlf ls)"
      using crlf_terminated [OF b(1)] l by simp
    then show ?thesis
      using ih b unfolding l by (simp add: universal_terminated readlines_terminated)
  next
    case False
    then have ls: "ls = []" using fin by blast
    have "LF \<notin> set l"
    proof
      assume "LF \<in> set l"
      then have "LF \<in> set (butlast l @ [last l])" using ne by simp
      then show False using nolf False by auto
    qed
    then show ?thesis
      using ls ne nocr by (simp add: crlf_plain universal_id readlines_single)
  qed
qed

lemma file_lines_deduplicate:
  "file_lines (deduplicate_rpt content) = dedup_filter {} False (file_lines content)"
proof -
  have "wf_lines (dedup_filter {} False (file_lines content))"
    by (rule wf_lines_filter) (rule wf_file_lines)
  then have "readlines (universal_newlines
      (concat (map crlf (dedup_filter {} False (file_lines content))))) =
      dedup_filter {} False (file_lines content)"
    by (rule reread_lines)
  then show ?thesis
    by (simp add: file_lines_def deduplicate_rpt_def deduplicate_lines_filter)
qed

lemma deduplicate_rpt_lines:
  "deduplicate_rpt content = concat (map crlf (dedup_filter {} False (file_lines content)))"
  by (simp add: deduplicate_rpt_def deduplicate_lines_filter file_lines_def)

lemma filter_append_source:
  assumes "is_source l"
  shows "dedup_filter seen b (pre @ l # post) =
         dedup_filter seen b pre @
         dedup_filter (seen \<union> set (source_payloads pre)) False (l # post)"
proof -
  define T where "T = (\<lambda>S. dedup_filter S False (l # post))"
  have flag: "dedup_filter S c (l # post) = T S" for S c
    using assms by (simp add: T_def)
  have "dedup_filter seen b (pre @ l # post) =
        dedup_filter seen b pre @ T (seen \<union> set (source_payloads pre))"
  proof (induction pre arbitrary: seen b)
    case Nil
    show ?case using flag [of seen b] by (simp add: source_payloads_def)
  next
    case (Cons h pre)
    show ?case
    proof (cases "is_source h \<and> payload h \<in> seen")
      case True
      then have "seen \<union> set (source_payloads (h # pre)) = seen \<union> set (source_payloads pre)"
        by (auto simp: source_payloads_def)
      then show ?thesis using True Cons.IH [of seen True] by simp
    next
      case False
      have "insert (payload h) seen \<union> set (source_payloads pre) =
          seen \<union> set (source_payloads (h # pre))" if "is_source h"
        using that by (simp add: source_payloads_def)
      moreover have "seen \<union> set (source_payloads (h # pre)) =
          seen \<union> set (source_payloads pre)" if "\<not> is_source h"
        using that by (simp add: source_payloads_def)
      ultimately show ?thesis
        using False Cons.IH [of "insert (payload h) seen" False]
          Cons.IH [of seen True] Cons.IH [of seen False]
        by (cases "is_source h") auto
    qed
  qed
  then show ?thesis by (simp only: T_def)
qed

lemma first_record_kept:
  assumes "is_source l" and "is_translation t" and "payload l \<notin> set (source_payloads pre)"
  shows "\<exists>pre' post'. dedup_filter {} False (pre @ l # t # post) = pre' @ l # t # post'"
proof -
  have nt: "\<not> is_source t" using assms(2) by (rule translation_not_source)
  have "dedup_filter {} False (pre @ l # t # post) =
        dedup_filter {} False pre @
        l # t # dedup_filter (insert (payload l) (set (source_payloads pre))) False post"
    using assms(1,3) nt by (simp add: filter_append_source [OF assms(1)])
  then show ?thesis by blast
qed

text \<open>
  Claim C2.  In the file that the deduplication pass leaves, read back as lines, no two
  source lines have the same payload; the source lines left are exactly the first
  occurrences of their payloads in the input, in the input's order; and a first
  occurrence that a translation line follows is kept together with that line.
\<close>

theorem deduplicate_rpt_first_occurrences:
  "distinct (source_payloads (file_lines (deduplicate_rpt content)))
   \<and> filter is_source (file_lines (deduplicate_rpt content)) =
       first_occurrences {} (filter is_source (file_lines content))
   \<and> (file_lines content = pre @ l # t # post \<and> is_source l \<and> is_translation t
        \<and> payload l \<notin> set (source_payloads pre)
       \<longrightarrow> (\<exists>pre' post'. file_lines (deduplicate_rpt content) = pre' @ l # t # post'))"
  using first_record_kept [of l t pre post]
  by (simp add: file_lines_deduplicate filter_payloads_distinct filter_sources_first)

theorem deduplicate_rpt_first_occurrences_witness:
  "file_lines (ascii ''< a'' @ [LF] @ ascii ''> x'' @ [LF, LF] @ ascii ''< a '' @ [CR, LF] @ ascii ''> y'' @ [LF])
     = [] @ (ascii ''< a'' @ [LF]) # (ascii ''> x'' @ [LF]) # [[LF], ascii ''< a '' @ [LF], ascii ''> y'' @ [LF]]
   \<and> is_source (ascii ''< a'' @ [LF]) \<and> is_translation (ascii ''> x'' @ [LF])
   \<and> payload (ascii ''< a'' @ [LF]) \<notin> set (source_payloads [])
   \<and> (\<exists>pre' post'.
        file_lines (deduplicate_rpt (ascii ''< a'' @ [LF] @ ascii ''> x'' @ [LF, LF] @ ascii ''< a '' @ [CR, LF] @ ascii ''> y'' @ [LF]))
        = pre' @ (ascii ''< a'' @ [LF]) # (ascii ''> x'' @ [LF]) # post')
   \<and> deduplicate_rpt (ascii ''< a'' @ [LF] @ ascii ''> x'' @ [LF, LF] @ ascii ''< a '' @ [CR, LF] @ ascii ''> y'' @ [LF])
     = ascii ''< a'' @ [CR, LF] @ ascii ''> x'' @ [CR, LF, CR, LF]"
proof -
  let ?w = "ascii ''< a'' @ [LF] @ ascii ''> x'' @ [LF, LF] @ ascii ''< a '' @ [CR, LF] @ ascii ''> y'' @ [LF]"
  have fl: "file_lines ?w
     = [] @ (ascii ''< a'' @ [LF]) # (ascii ''> x'' @ [LF]) # [[LF], ascii ''< a '' @ [LF], ascii ''> y'' @ [LF]]"
    by (simp add: file_lines_def ascii_def)
  have s: "is_source (ascii ''< a'' @ [LF])" "is_translation (ascii ''> x'' @ [LF])"
    by (simp_all add: is_source_def is_translation_def startswith_def ascii_def)
  have p: "payload (ascii ''< a'' @ [LF]) \<notin> set (source_payloads [])"
    by (simp add: source_payloads_def)
  have d: "deduplicate_rpt ?w = ascii ''< a'' @ [CR, LF] @ ascii ''> x'' @ [CR, LF, CR, LF]"
    by (simp add: deduplicate_rpt_def ascii_def startswith_def take_translation_def
        is_blank_def strip_def lstrip_def rstrip_def is_space_def crlf_def)
  from deduplicate_rpt_first_occurrences [of ?w "[]" "ascii ''< a'' @ [LF]" "ascii ''> x'' @ [LF]"
      "[[LF], ascii ''< a '' @ [LF], ascii ''> y'' @ [LF]]"] fl s p
  have "\<exists>pre' post'. file_lines (deduplicate_rpt ?w)
        = pre' @ (ascii ''< a'' @ [LF]) # (ascii ''> x'' @ [LF]) # post'"
    by blast
  with fl s p d show ?thesis by blast
qed

text \<open>
  Claim C3.  The deduplication pass is idempotent on file contents: a second run over the
  file the first run wrote leaves it as it is.
\<close>

theorem deduplicate_rpt_idempotent:
  "deduplicate_rpt (deduplicate_rpt content) = deduplicate_rpt content"
  by (simp add: deduplicate_rpt_lines [of "deduplicate_rpt content"] file_lines_deduplicate
      filter_idem deduplicate_rpt_lines [symmetric])

section \<open>Properties of the decoder\<close>

lemma encode_ascii: "\<forall>c\<in>set s. c < 128 \<Longrightarrow> utf8_encode s = Inr s"
  by (induction s) (simp_all add: encode_char_def)

lemma decode_escape_char:
  "unicode_escape_decode db (escape_char c @ r) = emit c (unicode_escape_decode db r)"
  by (cases r) (auto simp: escape_char_def simple_escape_def emit_def)

lemma decode_escaped: "unicode_escape_decode db (concat (map escape_char s)) = Inr s"
  by (induction s) (simp_all add: decode_escape_char emit_def)

lemma quote_ascii: "\<forall>c\<in>set s. c < 128 \<Longrightarrow> \<forall>c\<in>set (quote s). c < 128"
  by (induction s) (auto simp: quote_concat escape_char_def)

text \<open>On ASCII text the decoding undoes \<open>quote\<close>.\<close>

lemma unescape_quote_ascii:
  "\<forall>c\<in>set s. c < 128 \<Longrightarrow> unescape db (quote s) = Inr s"
  using encode_ascii [OF quote_ascii, of s]
  by (simp add: unescape_def) (simp add: quote_concat decode_escaped)

text \<open>
  Claim C1.  The round trip \<open>unescape (escape s) = s\<close> is claimed for every string of
  printable characters, backslashes and newlines.  The printable character U+00E9 is
  not restored: \<open>quote\<close> leaves it as it is, the UTF-8 encoding makes the two bytes C3 A9
  of it, and the decoding reads each byte as a character of its own, U+00C3 and U+00A9.
\<close>

theorem unescape_quote_non_ascii:
  "quote [233] = [233] \<and> utf8_encode [233] = Inr [195, 169]
   \<and> unescape no_unicodedata (quote [233]) = Inr [195, 169]
   \<and> unescape no_unicodedata (quote [233]) \<noteq> Inr [233]"
  by (simp add: quote_def unescape_def encode_char_def emit_def)

section \<open>Properties of the character registry\<close>

lemma remdups_append_remdups: "remdups (ys @ remdups zs) = remdups (ys @ zs)"
  by (induction ys) simp_all

lemma first_seen_absorb: "first_seen (first_seen xs @ ys) = first_seen (xs @ ys)"
  by (simp add: first_seen_def remdups_append_remdups)

lemma first_seen_distinct: "distinct (first_seen xs)"
  by (simp add: first_seen_def)

lemma first_seen_set: "set (first_seen xs) = set xs"
  by (simp add: first_seen_def)

lemma first_seen_id: "distinct xs \<Longrightarrow> first_seen xs = xs"
  by (simp add: first_seen_def distinct_remdups_id)

lemma first_seen_snoc:
  "first_seen (xs @ [x]) = (if x \<in> set xs then first_seen xs else first_seen xs @ [x])"
  by (simp add: first_seen_def)

lemma add_names_first_seen:
  "distinct names \<Longrightarrow> add_names names xs = first_seen (names @ xs)"
proof (induction xs arbitrary: names)
  case Nil
  then show ?case by (simp add: first_seen_id)
next
  case (Cons x xs)
  let ?n = "if x \<notin> set names then names @ [x] else names"
  have d: "distinct ?n" using Cons.prems by simp
  have "?n = first_seen (names @ [x])"
    using Cons.prems by (simp add: first_seen_snoc first_seen_id)
  then have "first_seen (?n @ xs) = first_seen (names @ x # xs)"
    using first_seen_absorb [of "names @ [x]" xs] by simp
  then show ?case using Cons.IH [OF d] by simp
qed

lemma gather_loop_first_seen:
  "distinct names \<Longrightarrow>
   gather_loop db fs names paths =
     (case collect (map (read_text fs) paths) of
        Inl e \<Rightarrow> Inl e
      | Inr texts \<Rightarrow> Inr (first_seen (names @ concat (map (defined_names db) texts))))"
proof (induction paths arbitrary: names)
  case Nil
  then show ?case by (simp add: first_seen_id)
next
  case (Cons p ps)
  show ?case
  proof (cases "read_text fs p")
    case (Inl e)
    then show ?thesis by simp
  next
    case (Inr t)
    have d: "distinct (add_names names (defined_names db t))"
      using Cons.prems by (simp add: add_names_first_seen first_seen_distinct)
    show ?thesis
      using Inr Cons.IH [OF d] Cons.prems
        first_seen_absorb [of "names @ defined_names db t"]
      by (simp add: add_names_first_seen split: sum.splits)
  qed
qed

text \<open>
  Claim C7.  \<open>gather_char_names\<close> returns the names that the definitions of the files give,
  file after file in the order of the list and match after match within a file, each
  name once, at the place of its first occurrence; names are the same when they are
  equal as strings.  (A file that cannot be read raises.)
\<close>

theorem gather_char_names_first_seen:
  "gather_char_names db fs rpy_files =
     (case collect (map (read_text fs) rpy_files) of
        Inl e \<Rightarrow> Inl e
      | Inr texts \<Rightarrow> Inr (first_seen (concat (map (defined_names db) texts))))
   \<and> distinct (first_seen names) \<and> set (first_seen names) = set names
   \<and> first_seen ([] :: str list) = []
   \<and> first_seen (names @ [n]) =
       (if n \<in> set names then first_seen names else first_seen names @ [n])"
proof -
  have "gather_char_names db fs rpy_files =
     (case collect (map (read_text fs) rpy_files) of
        Inl e \<Rightarrow> Inl e
      | Inr texts \<Rightarrow> Inr (first_seen (concat (map (defined_names db) texts))))"
    using gather_loop_first_seen [of "[]" db fs rpy_files]
    by (simp add: gather_char_names_def split: sum.splits)
  moreover have "first_seen ([] :: str list) = []"
    by (simp add: first_seen_def)
  ultimately show ?thesis
    by (simp add: first_seen_distinct first_seen_set first_seen_snoc)
qed

section \<open>Properties of the run\<close>

lemma unique_texts_set: "set (unique_texts seen ts) = set ts - seen - {[]}"
  by (induction ts arbitrary: seen) auto

lemma unique_texts_distinct: "distinct (unique_texts seen ts)"
  by (induction ts arbitrary: seen) (auto simp: unique_texts_set)

lemma unique_texts_Nil_iff: "unique_texts {} ts = [] \<longleftrightarrow> (\<forall>t\<in>set ts. t = [])"
proof -
  have "unique_texts {} ts = [] \<longleftrightarrow> set (unique_texts {} ts) = {}" by simp
  then show ?thesis by (auto simp: unique_texts_set)
qed

lemma script_first_set: "set (script_first input_dir rpy_files) = set rpy_files"
proof -
  have "insert p (set (remove1 p xs)) = set xs" if "p \<in> set xs" for p :: str and xs
    using that by (induction xs) auto
  then show ?thesis by (simp add: script_first_def Let_def)
qed

lemma script_first_Nil: "script_first input_dir rpy_files = [] \<longleftrightarrow> rpy_files = []"
  by (auto simp: script_first_def Let_def)

lemma screen_texts_read:
  "fs p = Some raw \<Longrightarrow> \<exists>labels. extract_screen_texts fs p = Inr labels"
  by (simp add: extract_screen_texts_def read_text_def)

lemma main_phases:
  "rpy_files \<noteq> [] \<Longrightarrow>
   \<exists>written. main db fs rpy_files input_dir fill =
     extraction_phase db fs (script_first input_dir rpy_files) fill written"
proof (cases "fs (path_join input_dir (ascii ''screens.rpy''))")
  case None
  assume "rpy_files \<noteq> []"
  then show ?thesis using None by (auto simp: main_def Let_def)
next
  case (Some raw)
  assume ne: "rpy_files \<noteq> []"
  from screen_texts_read [of fs "path_join input_dir (ascii ''screens.rpy'')" raw] Some
  obtain labels where
    "extract_screen_texts fs (path_join input_dir (ascii ''screens.rpy'')) = Inr labels"
    by blast
  then show ?thesis using Some ne by (auto simp: main_def Let_def)
qed

lemma gather_loop_none:
  "\<forall>p\<in>set paths. \<exists>raw. fs p = Some raw \<and> defined_names db (universal_newlines raw) = [] \<Longrightarrow>
   gather_loop db fs [] paths = Inr []"
  by (induction paths) (auto simp: read_text_def)

lemma phase_without_names:
  "gather_char_names db fs files = Inr [] \<Longrightarrow>
   extraction_phase db fs files fill written =
     \<lparr>status = Some NoCharacterDefinitions, output_file = Some written, dialogue_scans = []\<rparr>"
  by (simp add: extraction_phase_def)

text \<open>
  Claim C6.  When no source holds a character definition, the run ends with a failure and
  \<open>extract_dialogues\<close> has been called on no file: the failure is the missing character
  definitions (or, for an empty list of sources, the missing sources).
\<close>

theorem no_definitions_no_scan:
  assumes "\<forall>p\<in>set rpy_files. \<exists>raw. fs p = Some raw \<and> defined_names db (universal_newlines raw) = []"
  shows "status (main db fs rpy_files input_dir fill) =
           Some (if rpy_files = [] then NoRpyFiles else NoCharacterDefinitions)
         \<and> dialogue_scans (main db fs rpy_files input_dir fill) = []"
proof (cases "rpy_files = []")
  case True
  then show ?thesis by (simp add: main_def)
next
  case False
  from main_phases [OF False] obtain written where
    m: "main db fs rpy_files input_dir fill =
        extraction_phase db fs (script_first input_dir rpy_files) fill written" ..
  have "gather_char_names db fs (script_first input_dir rpy_files) = Inr []"
    unfolding gather_char_names_def
    by (rule gather_loop_none) (use assms in \<open>simp add: script_first_set\<close>)
  then show ?thesis using False m by (simp add: phase_without_names)
qed

lemma undefined_names:
  "defined_names no_unicodedata (universal_newlines (ascii ''e '' @ quoted ''Hi'' @ [LF])) = []"
  by (simp add: defined_names_def DEFINE_RE_def finditer_def Plus_def is_space_def is_word_def
      ascii_def quoted_def no_unicodedata_def)

theorem no_definitions_no_scan_witness:
  "status (main no_unicodedata undefined_fs [ascii ''game/script.rpy''] (ascii ''game'') False) =
     Some NoCharacterDefinitions
   \<and> dialogue_scans (main no_unicodedata undefined_fs [ascii ''game/script.rpy''] (ascii ''game'') False) = []"
  using no_definitions_no_scan [of "[ascii ''game/script.rpy'']" undefined_fs no_unicodedata
      "ascii ''game''" False] undefined_names
  by (simp add: undefined_fs_def)

lemma phase_status_written:
  "status (extraction_phase db fs files fill written) =
   status (extraction_phase db fs files fill [])"
  by (simp add: extraction_phase_def Let_def split: sum.splits prod.splits)

lemma phase_no_dialogue_iff:
  "status (extraction_phase db fs files fill written) = Some NoDialogueLines \<longleftrightarrow>
   (\<exists>names scanned texts.
      gather_char_names db fs files = Inr names \<and> names \<noteq> []
      \<and> extract_all db fs (single_pattern names) (multi_pattern names) files
          = (scanned, Inr texts)
      \<and> (\<forall>t\<in>set texts. t = []))"
  by (auto simp: extraction_phase_def Let_def build_patterns_def unique_texts_Nil_iff
      split: sum.splits prod.splits)

lemma scenario3_labels:
  "extract_screen_texts scenario3_fs (ascii ''game/screens.rpy'') =
     Inr [ascii ''Start Game'', ascii ''Quit'']"
  by (simp add: extract_screen_texts_def read_text_def scenario3_fs_def screens_source_def
      ascii_def line_def quoted_def finditer_def screen_pattern_def Plus_def is_space_def
      group_def)

lemma scenario3_names:
  "gather_char_names db scenario3_fs [ascii ''game/screens.rpy''] = Inr []"
  by (simp add: gather_char_names_def read_text_def scenario3_fs_def screens_source_def
      ascii_def line_def quoted_def defined_names_def DEFINE_RE_def finditer_def Plus_def
      is_space_def is_word_def)

lemma scenario3_run:
  "main db scenario3_fs [ascii ''game/screens.rpy''] (ascii ''game'') fill =
     \<lparr>status = Some NoCharacterDefinitions,
      output_file = Some (screens_phase fill [ascii ''Start Game'', ascii ''Quit'']),
      dialogue_scans = []\<rparr>"
proof -
  have p: "path_join (ascii ''game'') (ascii ''screens.rpy'') = ascii ''game/screens.rpy''"
    by (simp add: path_join_def ascii_def)
  have f: "script_first (ascii ''game'') [ascii ''game/screens.rpy''] = [ascii ''game/screens.rpy'']"
    by (simp add: script_first_def path_join_def ascii_def)
  have s: "scenario3_fs (ascii ''game/screens.rpy'') \<noteq> None"
    by (simp add: scenario3_fs_def)
  show ?thesis
    using s by (simp add: main_def Let_def p f scenario3_labels phase_without_names scenario3_names)
qed

lemma screens_phase_start:
  "screens_phase False [ascii ''Start Game'', ascii ''Quit''] =
     line ''< Start Game'' @ line ''> '' @ [LF] @ line ''< Quit'' @ line ''> '' @ [LF]
     @ (write_records [LF] False empty_slots @ write_record [LF] False quit_message
        @ write_records [LF] False joystick_lines)"
proof -
  have "write_records [LF] False [ascii ''Start Game'', ascii ''Quit''] =
      line ''< Start Game'' @ line ''> '' @ [LF] @ line ''< Quit'' @ line ''> '' @ [LF]"
    by (simp add: write_records_def write_record_def quote_def line_def ascii_def)
  then show ?thesis by (simp only: screens_phase_def append_assoc)
qed

lemma silent_labels:
  "extract_screen_texts silent_fs (ascii ''game/screens.rpy'') =
     Inr [ascii ''Start Game'', ascii ''Quit'']"
  by (simp add: extract_screen_texts_def read_text_def silent_fs_def screens_source_def
      ascii_def line_def quoted_def finditer_def screen_pattern_def Plus_def is_space_def
      group_def)

lemma silent_files:
  "script_first (ascii ''game'') [ascii ''game/screens.rpy'', ascii ''game/script.rpy''] =
     [ascii ''game/script.rpy'', ascii ''game/screens.rpy'']"
  by (simp add: script_first_def path_join_def ascii_def)

lemma silent_names:
  "gather_char_names db silent_fs [ascii ''game/script.rpy'', ascii ''game/screens.rpy''] =
     Inr [ascii ''e'']"
  by (simp add: gather_char_names_def read_text_def silent_fs_def screens_source_def
      ascii_def line_def quoted_def defined_names_def DEFINE_RE_def finditer_def Plus_def
      is_space_def is_word_def group_def)

lemma silent_script:
  "extract_dialogues db silent_fs (ascii ''game/script.rpy'')
     (single_pattern [ascii ''e'']) (multi_pattern [ascii ''e'']) = Inr []"
  by (simp add: extract_dialogues_def read_text_def silent_fs_def single_texts_def
      multi_texts_def menu_texts_def single_pattern_def multi_pattern_def menu_choice_re_def
      ascii_def line_def quoted_def finditer_def Plus_def is_space_def)

lemma silent_screens:
  "extract_dialogues db silent_fs (ascii ''game/screens.rpy'')
     (single_pattern [ascii ''e'']) (multi_pattern [ascii ''e'']) = Inr []"
  by (simp add: extract_dialogues_def read_text_def silent_fs_def screens_source_def
      single_texts_def multi_texts_def menu_texts_def single_pattern_def multi_pattern_def
      menu_choice_re_def ascii_def line_def quoted_def finditer_def Plus_def is_space_def)

lemma silent_texts:
  "extract_all db silent_fs (single_pattern [ascii ''e'']) (multi_pattern [ascii ''e''])
     [ascii ''game/script.rpy'', ascii ''game/screens.rpy''] =
   ([ascii ''game/script.rpy'', ascii ''game/screens.rpy''], Inr [])"
  by (simp add: silent_script silent_screens)

text \<open>
  Claim C4, as stated, fails.  The screen source of scenario 3 gives the label texts
  \<open>Start Game\<close> and \<open>Quit\<close>, and the run over it alone ends with the failure of the missing
  character definitions.  Beside a script that defines a character and holds no
  dialogue, the same label texts are extracted and the run ends with the failure of the
  missing dialogue lines.
\<close>

theorem label_texts_do_not_count:
  "extract_screen_texts scenario3_fs (ascii ''game/screens.rpy'') =
     Inr [ascii ''Start Game'', ascii ''Quit'']
   \<and> status (main no_unicodedata scenario3_fs [ascii ''game/screens.rpy''] (ascii ''game'') False)
       = Some NoCharacterDefinitions
   \<and> extract_screen_texts silent_fs (ascii ''game/screens.rpy'') =
       Inr [ascii ''Start Game'', ascii ''Quit'']
   \<and> status (main no_unicodedata silent_fs
         [ascii ''game/screens.rpy'', ascii ''game/script.rpy''] (ascii ''game'') False)
       = Some NoDialogueLines"
proof -
  have "silent_fs (path_join (ascii ''game'') (ascii ''screens.rpy'')) \<noteq> None"
    by (simp add: silent_fs_def path_join_def ascii_def)
  moreover have "path_join (ascii ''game'') (ascii ''screens.rpy'') = ascii ''game/screens.rpy''"
    by (simp add: path_join_def ascii_def)
  ultimately have "status (main no_unicodedata silent_fs
       [ascii ''game/screens.rpy'', ascii ''game/script.rpy''] (ascii ''game'') False)
     = Some NoDialogueLines"
    by (simp add: main_def Let_def silent_labels silent_files phase_status_written [of _ _ _ _ "screens_phase _ _"])
       (simp add: extraction_phase_def silent_names build_patterns_def silent_texts
          del: extract_all.simps)
  then show ?thesis
    by (simp add: scenario3_labels silent_labels scenario3_run)
qed

text \<open>
  Claim C4, amended.  The run ends with the failure of the missing dialogue lines exactly
  when there are sources, a character definition was found, every file was scanned
  without an error, and the scan of the script sources gave no text that is not empty;
  the label texts of the screen source are not counted.  The run over the screen source
  of scenario 3 alone ends with the failure of the missing character definitions, and
  the output file written before that starts with the records of \<open>Start Game\<close> and
  \<open>Quit\<close>, in that order.
\<close>

theorem no_dialogue_lines_iff:
  "(status (main db fs rpy_files input_dir fill) = Some NoDialogueLines \<longleftrightarrow>
      rpy_files \<noteq> []
      \<and> (\<exists>names scanned texts.
            gather_char_names db fs (script_first input_dir rpy_files) = Inr names
            \<and> names \<noteq> []
            \<and> extract_all db fs (single_pattern names) (multi_pattern names)
                 (script_first input_dir rpy_files) = (scanned, Inr texts)
            \<and> (\<forall>t\<in>set texts. t = [])))
   \<and> status (main db scenario3_fs [ascii ''game/screens.rpy''] (ascii ''game'') False)
       = Some NoCharacterDefinitions
   \<and> (\<exists>rest. output_file (main db scenario3_fs [ascii ''game/screens.rpy''] (ascii ''game'') False)
        = Some (line ''< Start Game'' @ line ''> '' @ [LF]
                @ line ''< Quit'' @ line ''> '' @ [LF] @ rest))"
proof -
  have "status (main db fs rpy_files input_dir fill) = Some NoDialogueLines \<longleftrightarrow>
      rpy_files \<noteq> []
      \<and> (\<exists>names scanned texts.
            gather_char_names db fs (script_first input_dir rpy_files) = Inr names
            \<and> names \<noteq> []
            \<and> extract_all db fs (single_pattern names) (multi_pattern names)
                 (script_first input_dir rpy_files) = (scanned, Inr texts)
            \<and> (\<forall>t\<in>set texts. t = []))"
  proof (cases "rpy_files = []")
    case True
    then show ?thesis by (simp add: main_def)
  next
    case False
    from main_phases [OF False] obtain written where
      "main db fs rpy_files input_dir fill =
       extraction_phase db fs (script_first input_dir rpy_files) fill written" ..
    then show ?thesis using False by (simp only: phase_no_dialogue_iff) simp
  qed
  moreover have "\<exists>rest. screens_phase False [ascii ''Start Game'', ascii ''Quit''] =
      line ''< Start Game'' @ line ''> '' @ [LF] @ line ''< Quit'' @ line ''> '' @ [LF] @ rest"
    using screens_phase_start by blast
  ultimately show ?thesis by (simp add: scenario3_run)
qed

theorem no_dialogue_lines_iff_witness:
  "gather_char_names no_unicodedata silent_fs
       (script_first (ascii ''game'') [ascii ''game/screens.rpy'', ascii ''game/script.rpy''])
     = Inr [ascii ''e'']
   \<and> extract_all no_unicodedata silent_fs (single_pattern [ascii ''e'']) (multi_pattern [ascii ''e''])
       (script_first (ascii ''game'') [ascii ''game/screens.rpy'', ascii ''game/script.rpy''])
     = ([ascii ''game/script.rpy'', ascii ''game/screens.rpy''], Inr [])
   \<and> status (main no_unicodedata silent_fs
         [ascii ''game/screens.rpy'', ascii ''game/script.rpy''] (ascii ''game'') True)
       = Some NoDialogueLines"
proof -
  have g: "gather_char_names no_unicodedata silent_fs
       (script_first (ascii ''game'') [ascii ''game/screens.rpy'', ascii ''game/script.rpy''])
     = Inr [ascii ''e'']"
    by (simp add: silent_files silent_names)
  have x: "extract_all no_unicodedata silent_fs (single_pattern [ascii ''e''])
       (multi_pattern [ascii ''e''])
       (script_first (ascii ''game'') [ascii ''game/screens.rpy'', ascii ''game/script.rpy''])
     = ([ascii ''game/script.rpy'', ascii ''game/screens.rpy''], Inr [])"
    by (simp only: silent_files silent_texts)
  have "\<exists>names scanned texts.
      gather_char_names no_unicodedata silent_fs
        (script_first (ascii ''game'') [ascii ''game/screens.rpy'', ascii ''game/script.rpy''])
        = Inr names
      \<and> names \<noteq> []
      \<and> extract_all no_unicodedata silent_fs (single_pattern names) (multi_pattern names)
          (script_first (ascii ''game'') [ascii ''game/screens.rpy'', ascii ''game/script.rpy''])
          = (scanned, Inr texts)
      \<and> (\<forall>t\<in>set texts. t = [])"
    using g x by (intro exI [of _ "[ascii ''e'']"] exI [of _ "[]"] exI) (auto simp: ascii_def)
  then have "status (main no_unicodedata silent_fs
         [ascii ''game/screens.rpy'', ascii ''game/script.rpy''] (ascii ''game'') True)
       = Some NoDialogueLines"
    using no_dialogue_lines_iff [of no_unicodedata silent_fs
        "[ascii ''game/screens.rpy'', ascii ''game/script.rpy'']" "ascii ''game''" True]
    by simp
  with g x show ?thesis by simp
qed

section \<open>Properties of the dialogue extractor\<close>

lemma block_read:
  "read_text block_fs (ascii ''game/script.rpy'') = Inr block_script"
  by (simp add: read_text_def block_fs_def)
     (simp add: block_script_def ascii_def line_def quoted_def)

lemma block_names:
  "gather_char_names db block_fs [ascii ''game/script.rpy''] = Inr [ascii ''e'']"
  by (simp add: gather_char_names_def block_read)
     (simp add: block_script_def ascii_def line_def quoted_def defined_names_def DEFINE_RE_def
      finditer_def Plus_def is_space_def is_word_def group_def)

lemma block_body: "block_text (ascii ''  Hello'') = ascii ''Hello''"
  by (simp add: block_text_def strip_def lstrip_def rstrip_def is_space_def is_linebreak_def
      ascii_def)

lemma block_singles:
  "single_texts db (single_pattern [ascii ''e'']) block_script = Inr [[]]"
  by (simp add: single_texts_def single_pattern_def block_script_def ascii_def line_def
      quoted_def finditer_def Plus_def is_space_def group_def unescape_def strip_def
      lstrip_def rstrip_def)

lemma block_multis:
  "map (\<lambda>m. group m (Named ''text'')) (finditer (multi_pattern [ascii ''e'']) block_script)
   = [ascii ''  Hello'']"
  by (simp add: multi_pattern_def block_script_def ascii_def line_def quoted_def finditer_def
      Plus_def is_space_def group_def)

lemma block_menus: "menu_texts block_script = []"
  by (simp add: menu_texts_def menu_choice_re_def block_script_def ascii_def line_def
      quoted_def finditer_def Plus_def is_space_def group_def)

lemma block_dialogues:
  "extract_dialogues db block_fs (ascii ''game/script.rpy'')
     (single_pattern [ascii ''e'']) (multi_pattern [ascii ''e'']) = Inr [[], ascii ''Hello'']"
proof -
  have "multi_texts (multi_pattern [ascii ''e'']) block_script =
      map block_text (map (\<lambda>m. group m (Named ''text''))
        (finditer (multi_pattern [ascii ''e'']) block_script))"
    by (simp add: multi_texts_def)
  then have "multi_texts (multi_pattern [ascii ''e'']) block_script = [ascii ''Hello'']"
    by (simp only: block_multis list.map block_body)
  then show ?thesis
    by (simp add: extract_dialogues_def block_read block_singles block_menus)
qed










lemma unique_texts_nonempty: "\<forall>t\<in>set (unique_texts seen ts). t \<noteq> []"
  by (simp add: unique_texts_set)

lemma phase_success:
  "status (extraction_phase db fs files fill written) = None \<Longrightarrow>
   \<exists>names scanned texts.
      gather_char_names db fs files = Inr names
      \<and> extract_all db fs (single_pattern names) (multi_pattern names) files
          = (scanned, Inr texts)
      \<and> output_file (extraction_phase db fs files fill written) =
          Some (deduplicate_rpt (written @ write_records [CR, LF] fill (unique_texts {} texts)))"
  by (auto simp: extraction_phase_def Let_def build_patterns_def
      split: sum.splits prod.splits if_splits)

text \<open>
  Claim C10.  The texts given to the writer of the extraction phase are those of
  \<open>unique_texts\<close>: none of them is empty, and they are the extracted texts without the
  empty one.  A run that ends without a failure has written exactly their records after
  the first phase.  (The witness runs a script with a triple-quoted block: the
  single-line pattern matches at the opening quotes with an empty text, which is
  dropped.)
\<close>

theorem written_texts_nonempty:
  "(\<forall>t\<in>set (unique_texts seen all_texts). t \<noteq> [])
   \<and> set (unique_texts {} all_texts) = set all_texts - {[]}
   \<and> (status (main db fs rpy_files input_dir fill) = None \<longrightarrow>
        (\<exists>written names scanned texts.
           gather_char_names db fs (script_first input_dir rpy_files) = Inr names
           \<and> extract_all db fs (single_pattern names) (multi_pattern names)
                (script_first input_dir rpy_files) = (scanned, Inr texts)
           \<and> output_file (main db fs rpy_files input_dir fill) =
               Some (deduplicate_rpt
                 (written @ write_records [CR, LF] fill (unique_texts {} texts)))))"
proof -
  have "\<exists>written names scanned texts.
           gather_char_names db fs (script_first input_dir rpy_files) = Inr names
           \<and> extract_all db fs (single_pattern names) (multi_pattern names)
                (script_first input_dir rpy_files) = (scanned, Inr texts)
           \<and> output_file (main db fs rpy_files input_dir fill) =
               Some (deduplicate_rpt
                 (written @ write_records [CR, LF] fill (unique_texts {} texts)))"
    if ok: "status (main db fs rpy_files input_dir fill) = None"
  proof -
    have ne: "rpy_files \<noteq> []" using ok by (auto simp: main_def)
    from main_phases [OF ne] obtain written where
      m: "main db fs rpy_files input_dir fill =
          extraction_phase db fs (script_first input_dir rpy_files) fill written" ..
    from phase_success [of db fs "script_first input_dir rpy_files" fill written] ok m
    show ?thesis by auto
  qed
  then show ?thesis
    using unique_texts_nonempty [of seen all_texts] by (simp add: unique_texts_set)
qed

lemma block_texts:
  "extract_all db block_fs (single_pattern [ascii ''e'']) (multi_pattern [ascii ''e''])
     [ascii ''game/script.rpy''] = ([ascii ''game/script.rpy''], Inr [[], ascii ''Hello''])"
  by (simp add: block_dialogues)

lemma block_run:
  "main db block_fs [ascii ''game/script.rpy''] (ascii ''game'') False =
     \<lparr>status = None,
      output_file = Some (ascii ''< Hello'' @ [CR, LF] @ ascii ''> '' @ [CR, LF, CR, LF]),
      dialogue_scans = [ascii ''game/script.rpy'']\<rparr>"
proof -
  have s: "block_fs (path_join (ascii ''game'') (ascii ''screens.rpy'')) = None"
    by (simp add: block_fs_def path_join_def ascii_def)
  have f: "script_first (ascii ''game'') [ascii ''game/script.rpy''] = [ascii ''game/script.rpy'']"
    by (simp add: script_first_def path_join_def ascii_def)
  have u: "unique_texts {} [[], ascii ''Hello''] = [ascii ''Hello'']"
    by (simp add: ascii_def)
  have e: "list_all encodable [ascii ''Hello'']"
    by (simp add: encodable_def encode_char_def ascii_def)
  have w: "write_records [CR, LF] False [ascii ''Hello''] =
      ascii ''< Hello'' @ [CR, LF] @ ascii ''> '' @ [CR, LF, CR, LF]"
    by (simp add: write_records_def write_record_def quote_def ascii_def)
  have d: "deduplicate_rpt (ascii ''< Hello'' @ [CR, LF] @ ascii ''> '' @ [CR, LF, CR, LF]) =
      ascii ''< Hello'' @ [CR, LF] @ ascii ''> '' @ [CR, LF, CR, LF]"
    by (simp add: deduplicate_rpt_def ascii_def startswith_def take_translation_def
        is_blank_def strip_def lstrip_def rstrip_def is_space_def crlf_def)
  have "extraction_phase db block_fs [ascii ''game/script.rpy''] False [] =
     \<lparr>status = None,
      output_file = Some (ascii ''< Hello'' @ [CR, LF] @ ascii ''> '' @ [CR, LF, CR, LF]),
      dialogue_scans = [ascii ''game/script.rpy'']\<rparr>"
    using e d by (simp add: extraction_phase_def block_names build_patterns_def block_texts u w
        del: extract_all.simps unique_texts.simps)
  then show ?thesis by (simp add: main_def Let_def s f)
qed

theorem written_texts_nonempty_witness:
  "extract_all no_unicodedata block_fs (single_pattern [ascii ''e'']) (multi_pattern [ascii ''e''])
     [ascii ''game/script.rpy''] = ([ascii ''game/script.rpy''], Inr [[], ascii ''Hello''])
   \<and> unique_texts {} [[], ascii ''Hello''] = [ascii ''Hello'']
   \<and> [] \<notin> set (unique_texts {} [[], ascii ''Hello''])
   \<and> status (main no_unicodedata block_fs [ascii ''game/script.rpy''] (ascii ''game'') False) = None
   \<and> output_file (main no_unicodedata block_fs [ascii ''game/script.rpy''] (ascii ''game'') False)
       = Some (ascii ''< Hello'' @ [CR, LF] @ ascii ''> '' @ [CR, LF, CR, LF])"
proof -
  from written_texts_nonempty [of "{}" "[[], ascii ''Hello'']"]
  have "\<forall>t\<in>set (unique_texts {} [[], ascii ''Hello'']). t \<noteq> []" by blast
  then have "[] \<notin> set (unique_texts {} [[], ascii ''Hello''])" by blast
  moreover have "unique_texts {} [[], ascii ''Hello''] = [ascii ''Hello'']"
    by (simp add: ascii_def)
  ultimately show ?thesis by (simp add: block_texts block_run del: unique_texts.simps extract_all.simps)
qed

end
